theory Spec2Isabelle
  imports Main "HOL-Library.Word"
begin

section \<open>Pins, logic levels and roof-state constants\<close>

text \<open>
  The firmware is one Arduino sketch, \<open>RoofController.ino\<close>. A digital pin carries one of
  two levels. The relay outputs are active-low: a relay is energized while its pin is
  \<open>LOW\<close>. The limit switches read \<open>HIGH\<close> when asserted, the park sensors read
  \<open>LOW\<close> when the telescope is parked.
\<close>

datatype level = LOW | HIGH

definition pinRelayOpen :: int where "pinRelayOpen = 3"
definition pinRelayClose :: int where "pinRelayClose = 2"
definition pinLimitSwitchClose :: int where "pinLimitSwitchClose = 4"
definition pinLimitSwitchOpen :: int where "pinLimitSwitchOpen = 5"
definition parkTelescopeRA :: int where "parkTelescopeRA = 6"
definition parkTelescopeDEC :: int where "parkTelescopeDEC = 7"
definition ledPin :: int where "ledPin = 13"

definition roofClosed :: int where "roofClosed = 0"
definition roofOpen :: int where "roofOpen = 1"
definition roofStopped :: int where "roofStopped = 2"
definition roofClosing :: int where "roofClosing = 3"
definition roofOpening :: int where "roofOpening = 4"

section \<open>Controller state\<close>

text \<open>
  The global variables of the sketch, the millisecond counter behind \<open>millis()\<close>, the
  levels last written to the three output pins, and two logs: \<open>relayTrace\<close> gets one
  entry (time, level of pinRelayOpen, level of pinRelayClose) after every write to a relay
  pin, and \<open>sent\<close> collects the strings handed to \<open>Firmata.sendString\<close>. The outputs
  keep their level between two writes, so the trace holds every configuration the relay
  pins pass through. \<open>long\<close> and \<open>unsigned long\<close> are 32 bits wide on the target and
  are both kept as \<open>32 word\<close>; \<open>sint\<close> reads the signed value.
\<close>

type_synonym inputs = "int \<Rightarrow> level"

record controller =
  roofState :: int
  previousRoofState :: int
  hoistOnTime :: "32 word"
  ledToggleTime :: "32 word"
  ledState :: bool
  clock :: "32 word"
  outRelayOpen :: level
  outRelayClose :: level
  outLed :: level
  relayTrace :: "(32 word \<times> level \<times> level) list"
  sent :: "string list"

section \<open>Library primitives\<close>

definition millis :: "controller \<Rightarrow> 32 word" where
  "millis s = clock s"

definition delay :: "32 word \<Rightarrow> controller \<Rightarrow> controller" where
  "delay ms s = s\<lparr>clock := clock s + ms\<rparr>"

definition digitalRead :: "int \<Rightarrow> inputs \<Rightarrow> level" where
  "digitalRead pin env = env pin"

definition logRelays :: "controller \<Rightarrow> controller" where
  "logRelays s = s\<lparr>relayTrace := relayTrace s @ [(clock s, outRelayOpen s, outRelayClose s)]\<rparr>"

definition digitalWrite :: "int \<Rightarrow> level \<Rightarrow> controller \<Rightarrow> controller" where
  "digitalWrite pin v s =
     (if pin = pinRelayOpen then logRelays (s\<lparr>outRelayOpen := v\<rparr>)
      else if pin = pinRelayClose then logRelays (s\<lparr>outRelayClose := v\<rparr>)
      else if pin = ledPin then s\<lparr>outLed := v\<rparr>
      else s)"

definition sendString :: "string \<Rightarrow> controller \<Rightarrow> controller" where
  "sendString str s = s\<lparr>sent := sent s @ [str]\<rparr>"

section \<open>The command handler\<close>

definition stringCallback :: "string \<Rightarrow> inputs \<Rightarrow> controller \<Rightarrow> controller" where
  "stringCallback myString env s =
     (let openState = digitalRead pinLimitSwitchOpen env;
          closeState = digitalRead pinLimitSwitchClose env;
          commandString = myString
      in if commandString = ''OPEN'' then
           (let s1 = (if digitalRead parkTelescopeRA env = LOW \<and> digitalRead parkTelescopeDEC env = LOW
                      then s\<lparr>roofState := roofOpening\<rparr>
                      else sendString ''NOTELESCOPEPARK'' s)
            in s1\<lparr>roofState := roofOpening\<rparr>)
         else if commandString = ''CLOSE'' then
           (let s1 = (if digitalRead parkTelescopeRA env = LOW \<and> digitalRead parkTelescopeDEC env = LOW
                      then s\<lparr>roofState := roofClosing\<rparr>
                      else sendString ''NOTELESCOPEPARK'' s)
            in s1\<lparr>roofState := roofClosing\<rparr>)
         else if commandString = ''ABORT'' then s\<lparr>roofState := roofStopped\<rparr>
         else if commandString = ''QUERY'' then
           (if digitalRead parkTelescopeRA env \<noteq> LOW \<and> digitalRead parkTelescopeDEC env \<noteq> LOW
            then sendString ''NOTELESCOPEPARK'' s
            else if openState = HIGH \<and> closeState = LOW then sendString ''OPEN'' s
            else if closeState = HIGH \<and> openState = LOW then sendString ''CLOSED'' s
            else sendString ''UNKNOWN'' s)
         else s)"

section \<open>Relay driver\<close>

definition motorOff :: "controller \<Rightarrow> controller" where
  "motorOff s = delay 1000 (digitalWrite pinRelayClose HIGH (digitalWrite pinRelayOpen HIGH s))"

text \<open>
  The busy-wait \<open>while ((millis() - activateTime) < 800) {}\<close>: the body is empty and the
  millisecond counter advances underneath it; one unfolding is one millisecond.
\<close>

function busyWait :: "32 word \<Rightarrow> controller \<Rightarrow> controller" where
  "busyWait activateTime s =
     (if millis s - activateTime < 800 then busyWait activateTime (s\<lparr>clock := clock s + 1\<rparr>)
      else s)"
  by pat_completeness auto

termination
proof (relation "measure (\<lambda>(a, s). 800 - unat (clock s - a))")
  show "wf (measure (\<lambda>(a, s). 800 - unat (clock s - a)))"
    by simp
next
  fix activateTime :: "32 word" and s :: controller
  assume "millis s - activateTime < 800"
  then have lt: "unat (clock s - activateTime) < 800"
    by (simp add: millis_def word_less_nat_alt)
  define x where "x = clock s - activateTime"
  have u: "unat (x + 1) = Suc (unat x)"
    using lt by (simp add: x_def unat_word_ariths)
  have e: "clock s + 1 - activateTime = x + 1"
    by (simp add: x_def)
  have "unat (clock s + 1 - activateTime) = Suc (unat (clock s - activateTime))"
    unfolding e u by (simp only: x_def)
  then show "((activateTime, s\<lparr>clock := clock s + 1\<rparr>), (activateTime, s))
      \<in> measure (\<lambda>(a, s). 800 - unat (clock s - a))"
    using lt by simp
qed

declare busyWait.simps [simp del]

definition motorReverse :: "controller \<Rightarrow> controller" where
  "motorReverse s =
     (let s1 = motorOff s;
          s2 = digitalWrite pinRelayOpen LOW s1;
          activateTime = millis s2;
          s3 = busyWait activateTime s2;
          s4 = digitalWrite pinRelayOpen HIGH s3
      in s4\<lparr>hoistOnTime := millis s4\<rparr>)"

definition motorFwd :: "controller \<Rightarrow> controller" where
  "motorFwd s =
     (let s1 = motorOff s;
          s2 = digitalWrite pinRelayClose LOW s1;
          activateTime = millis s2;
          s3 = busyWait activateTime s2;
          s4 = digitalWrite pinRelayClose HIGH s3
      in s4\<lparr>hoistOnTime := millis s4\<rparr>)"

section \<open>Motion timer and safety cutout\<close>

text \<open>
  \<open>roofMotorRunDuration\<close> returns a \<open>long\<close>: the unsigned difference is read back as a
  signed 32-bit value.
\<close>

definition roofMotorRunDuration :: "controller \<Rightarrow> int" where
  "roofMotorRunDuration s =
     (if roofState s = roofOpening \<or> roofState s = roofClosing
      then sint (millis s - hoistOnTime s)
      else 0)"

definition safetyCutout :: "inputs \<Rightarrow> controller \<Rightarrow> controller" where
  "safetyCutout env s =
     (if roofMotorRunDuration s > 20000 then
        (if (roofState s = roofOpening \<and> digitalRead pinLimitSwitchOpen env = HIGH)
            \<or> (roofState s = roofClosing \<and> digitalRead pinLimitSwitchClose env = HIGH)
         then s\<lparr>roofState := roofStopped\<rparr>
         else s)
      else s)"

section \<open>Status LED\<close>

definition toggleLed :: "int \<Rightarrow> controller \<Rightarrow> controller" where
  "toggleLed duration s =
     (if millis s - ledToggleTime s > word_of_int duration then
        (let s1 = s\<lparr>ledToggleTime := millis s\<rparr>
         in if ledState s1 = False
            then digitalWrite ledPin HIGH (s1\<lparr>ledState := True\<rparr>)
            else digitalWrite ledPin LOW (s1\<lparr>ledState := False\<rparr>))
      else s)"

definition handleLEDs :: "inputs \<Rightarrow> controller \<Rightarrow> controller" where
  "handleLEDs env s =
     (if digitalRead pinLimitSwitchClose env = HIGH \<and> digitalRead pinLimitSwitchOpen env = LOW
      then toggleLed 50 s
      else if digitalRead pinLimitSwitchOpen env = HIGH \<and> digitalRead pinLimitSwitchClose env = LOW
      then toggleLed 1000 s
      else digitalWrite ledPin LOW s)"

section \<open>The state machine step\<close>

definition handleState :: "inputs \<Rightarrow> controller \<Rightarrow> controller" where
  "handleState env s =
     (let s1 = handleLEDs env s;
          s2 = safetyCutout env s1
      in if roofState s2 \<noteq> previousRoofState s2 then
           (let s3 = s2\<lparr>previousRoofState := roofState s2\<rparr>
            in if roofState s3 = roofOpening then motorFwd s3
               else if roofState s3 = roofClosing then motorReverse s3
               else motorOff s3)
         else s2)"

section \<open>Boot and executions\<close>

text \<open>
  \<open>powerOn\<close> holds the initial values of the globals; the counter value and the levels
  the output pins carry before the first write are not fixed by the sketch and are
  parameters. \<open>setup_sketch\<close> is the sketch's \<open>setup()\<close>, which registers the callback, configures the pins and calls
  \<open>motorOff\<close>; only the last changes the state modelled here.
\<close>

definition powerOn :: "32 word \<Rightarrow> level \<Rightarrow> level \<Rightarrow> level \<Rightarrow> controller" where
  "powerOn t0 ro rc l =
     \<lparr>roofState = roofStopped, previousRoofState = roofStopped, hoistOnTime = 0,
      ledToggleTime = 0, ledState = False, clock = t0, outRelayOpen = ro,
      outRelayClose = rc, outLed = l, relayTrace = [], sent = []\<rparr>"

definition setup_sketch :: "controller \<Rightarrow> controller" where
  "setup_sketch s = motorOff s"

text \<open>
  \<open>loop\<close> drains the pending messages, each one through \<open>stringCallback\<close>, and then
  calls \<open>handleState\<close>. An execution is a sequence of events: a received string, a
  call of \<open>handleState\<close> (a tick), or time passing outside the sketch's own waits. The
  sensor pins are sampled anew at every event.
\<close>

definition loop :: "string list \<Rightarrow> inputs \<Rightarrow> controller \<Rightarrow> controller" where
  "loop pending env s = handleState env (fold (\<lambda>m. stringCallback m env) pending s)"

datatype event = Command string inputs | Tick inputs | Elapse "32 word"

fun step :: "event \<Rightarrow> controller \<Rightarrow> controller" where
  "step (Command cmd env) s = stringCallback cmd env s"
| "step (Tick env) s = handleState env s"
| "step (Elapse d) s = s\<lparr>clock := clock s + d\<rparr>"

definition run :: "event list \<Rightarrow> controller \<Rightarrow> controller" where
  "run evs s = fold step evs s"

definition boot :: "32 word \<Rightarrow> level \<Rightarrow> level \<Rightarrow> level \<Rightarrow> controller" where
  "boot t0 ro rc l = setup_sketch (powerOn t0 ro rc l)"

section \<open>Predicates of the statements\<close>

text \<open>
  A relay is energized while its pin is \<open>LOW\<close>. A trace entry is safe when at least one
  of the two relay pins is at the de-energized level \<open>HIGH\<close>.
\<close>

definition energized :: "level \<Rightarrow> bool" where
  "energized v = (v = LOW)"

definition relaysSafe :: "32 word \<times> level \<times> level \<Rightarrow> bool" where
  "relaysSafe e = (case e of (t, ro, rc) \<Rightarrow> ro = HIGH \<or> rc = HIGH)"

definition relaysIdle :: "controller \<Rightarrow> bool" where
  "relaysIdle s = (outRelayOpen s = HIGH \<and> outRelayClose s = HIGH)"

text \<open>A stopped roof whose stop has already been applied by a tick.\<close>

definition settledStopped :: "controller \<Rightarrow> bool" where
  "settledStopped s = (roofState s = roofStopped \<and> previousRoofState s = roofStopped)"

text \<open>The strings a call has handed to \<open>Firmata.sendString\<close>: what \<open>sent\<close> gained.\<close>

definition emitted :: "controller \<Rightarrow> controller \<Rightarrow> string list" where
  "emitted s s' = drop (length (sent s)) (sent s')"

section \<open>The relay driver in closed form\<close>

lemmas pin_defs = pinRelayOpen_def pinRelayClose_def pinLimitSwitchClose_def
  pinLimitSwitchOpen_def parkTelescopeRA_def parkTelescopeDEC_def ledPin_def

lemmas roof_defs = roofClosed_def roofOpen_def roofStopped_def roofClosing_def
  roofOpening_def

lemma clock_advance:
  fixes c a :: "32 word"
  assumes "unat (c - a) < 800"
  shows "unat (c + 1 - a) = Suc (unat (c - a))"
proof -
  define x where "x = c - a"
  have u: "unat (x + 1) = Suc (unat x)"
    using assms by (simp add: x_def unat_word_ariths)
  have e: "c + 1 - a = x + 1"
    by (simp add: x_def)
  show ?thesis
    unfolding e u by (simp only: x_def)
qed

lemma busyWait_closed:
  "unat (clock s - a) \<le> 800 \<Longrightarrow> busyWait a s = s\<lparr>clock := a + 800\<rparr>"
proof (induction a s rule: busyWait.induct)
  case (1 a s)
  show ?case
  proof (cases "millis s - a < 800")
    case True
    then have lt: "unat (clock s - a) < 800"
      by (simp add: millis_def word_less_nat_alt)
    have "unat (clock (s\<lparr>clock := clock s + 1\<rparr>) - a) \<le> 800"
      using lt clock_advance [OF lt] by simp
    from "1.IH" [OF True this] True show ?thesis
      by (subst busyWait.simps) simp
  next
    case False
    then have "\<not> unat (clock s - a) < 800"
      by (simp add: millis_def word_less_nat_alt)
    with "1.prems" have "unat (clock s - a) = unat (800 :: 32 word)"
      by simp
    then have "clock s - a = 800"
      by (simp only: word_unat_eq_iff)
    then have "clock s = a + 800"
      by (simp add: algebra_simps)
    with False show ?thesis
      by (subst busyWait.simps) simp
  qed
qed

lemma motorOff_eq:
  "motorOff s = s\<lparr>outRelayOpen := HIGH, outRelayClose := HIGH, clock := clock s + 1000,
     relayTrace := relayTrace s @ [(clock s, HIGH, outRelayClose s), (clock s, HIGH, HIGH)]\<rparr>"
  by (simp add: motorOff_def delay_def digitalWrite_def logRelays_def pin_defs)

lemma motorFwd_eq:
  "motorFwd s = s\<lparr>outRelayOpen := HIGH, outRelayClose := HIGH, clock := clock s + 1800,
     hoistOnTime := clock s + 1800,
     relayTrace := relayTrace s @ [(clock s, HIGH, outRelayClose s), (clock s, HIGH, HIGH),
       (clock s + 1000, HIGH, LOW), (clock s + 1800, HIGH, HIGH)]\<rparr>"
  by (simp add: motorFwd_def Let_def motorOff_eq digitalWrite_def logRelays_def pin_defs
      millis_def busyWait_closed)

lemma motorReverse_eq:
  "motorReverse s = s\<lparr>outRelayOpen := HIGH, outRelayClose := HIGH, clock := clock s + 1800,
     hoistOnTime := clock s + 1800,
     relayTrace := relayTrace s @ [(clock s, HIGH, outRelayClose s), (clock s, HIGH, HIGH),
       (clock s + 1000, LOW, HIGH), (clock s + 1800, HIGH, HIGH)]\<rparr>"
  by (simp add: motorReverse_def Let_def motorOff_eq digitalWrite_def logRelays_def pin_defs
      millis_def busyWait_closed)

section \<open>Frame and invariant lemmas\<close>

lemma handleLEDs_frame [simp]:
  "roofState (handleLEDs env s) = roofState s"
  "previousRoofState (handleLEDs env s) = previousRoofState s"
  "hoistOnTime (handleLEDs env s) = hoistOnTime s"
  "clock (handleLEDs env s) = clock s"
  "outRelayOpen (handleLEDs env s) = outRelayOpen s"
  "outRelayClose (handleLEDs env s) = outRelayClose s"
  "relayTrace (handleLEDs env s) = relayTrace s"
  "sent (handleLEDs env s) = sent s"
  by (simp_all add: handleLEDs_def toggleLed_def digitalWrite_def pin_defs Let_def millis_def)

lemma safetyCutout_frame [simp]:
  "previousRoofState (safetyCutout env s) = previousRoofState s"
  "hoistOnTime (safetyCutout env s) = hoistOnTime s"
  "clock (safetyCutout env s) = clock s"
  "outRelayOpen (safetyCutout env s) = outRelayOpen s"
  "outRelayClose (safetyCutout env s) = outRelayClose s"
  "relayTrace (safetyCutout env s) = relayTrace s"
  "sent (safetyCutout env s) = sent s"
  by (simp_all add: safetyCutout_def)

lemma safetyCutout_roofState:
  "roofState (safetyCutout env s) = roofState s \<or> roofState (safetyCutout env s) = roofStopped"
  by (simp add: safetyCutout_def)

lemma stringCallback_frame [simp]:
  "previousRoofState (stringCallback cmd env s) = previousRoofState s"
  "hoistOnTime (stringCallback cmd env s) = hoistOnTime s"
  "clock (stringCallback cmd env s) = clock s"
  "outRelayOpen (stringCallback cmd env s) = outRelayOpen s"
  "outRelayClose (stringCallback cmd env s) = outRelayClose s"
  "relayTrace (stringCallback cmd env s) = relayTrace s"
  by (simp_all add: stringCallback_def sendString_def Let_def)

lemma stringCallback_roofState:
  "roofState (stringCallback cmd env s) = roofState s
   \<or> roofState (stringCallback cmd env s) = roofStopped
   \<or> roofState (stringCallback cmd env s) = roofOpening
   \<or> roofState (stringCallback cmd env s) = roofClosing"
  by (simp add: stringCallback_def sendString_def Let_def)

lemma handleState_relays:
  "relaysIdle s \<Longrightarrow> relaysIdle (handleState env s)"
  by (simp add: handleState_def Let_def relaysIdle_def motorFwd_eq motorReverse_eq motorOff_eq)

lemma handleState_trace:
  "list_all relaysSafe (relayTrace s) \<Longrightarrow> list_all relaysSafe (relayTrace (handleState env s))"
  by (simp add: handleState_def Let_def relaysSafe_def motorFwd_eq motorReverse_eq motorOff_eq)

lemma handleState_roofState:
  "roofState (handleState env s) = roofState s \<or> roofState (handleState env s) = roofStopped"
  using safetyCutout_roofState [of env "handleLEDs env s"]
  by (auto simp add: handleState_def Let_def motorFwd_eq motorReverse_eq motorOff_eq)

lemma handleState_previous:
  "previousRoofState (handleState env s) = roofState (handleState env s)"
  by (simp add: handleState_def Let_def motorFwd_eq motorReverse_eq motorOff_eq)

lemma step_relays: "relaysIdle s \<Longrightarrow> relaysIdle (step e s)"
  by (cases e) (simp_all add: handleState_relays, simp_all add: relaysIdle_def)

lemma step_trace:
  "list_all relaysSafe (relayTrace s) \<Longrightarrow> list_all relaysSafe (relayTrace (step e s))"
  by (cases e) (simp_all add: handleState_trace)

lemma run_relays: "relaysIdle s \<Longrightarrow> relaysIdle (run evs s)"
  unfolding run_def by (induction evs arbitrary: s) (simp_all add: step_relays)

lemma run_trace:
  "list_all relaysSafe (relayTrace s) \<Longrightarrow> list_all relaysSafe (relayTrace (run evs s))"
  unfolding run_def by (induction evs arbitrary: s) (simp_all add: step_trace)

lemma boot_relays: "relaysIdle (boot t0 ro rc l)"
  by (simp add: boot_def setup_sketch_def motorOff_eq relaysIdle_def)

lemma boot_trace: "list_all relaysSafe (relayTrace (boot t0 ro rc l))"
  by (simp add: boot_def setup_sketch_def motorOff_eq relaysSafe_def powerOn_def)

lemma tick_settledStopped:
  "settledStopped s \<Longrightarrow>
     settledStopped (handleState env s)
     \<and> relayTrace (handleState env s) = relayTrace s
     \<and> outRelayOpen (handleState env s) = outRelayOpen s
     \<and> outRelayClose (handleState env s) = outRelayClose s
     \<and> clock (handleState env s) = clock s"
  by (simp add: settledStopped_def handleState_def Let_def safetyCutout_def
      roofMotorRunDuration_def roof_defs)

lemma abort_Stopped: "roofState s = roofStopped \<Longrightarrow> stringCallback ''ABORT'' env s = s"
  by (simp add: stringCallback_def Let_def)

lemma abort_tick_round:
  assumes "settledStopped s"
  shows "settledStopped (((\<lambda>s. handleState env' (stringCallback ''ABORT'' env s)) ^^ n) s)
     \<and> relayTrace (((\<lambda>s. handleState env' (stringCallback ''ABORT'' env s)) ^^ n) s) = relayTrace s
     \<and> outRelayOpen (((\<lambda>s. handleState env' (stringCallback ''ABORT'' env s)) ^^ n) s) = outRelayOpen s
     \<and> outRelayClose (((\<lambda>s. handleState env' (stringCallback ''ABORT'' env s)) ^^ n) s) = outRelayClose s"
proof (induction n)
  case 0
  show ?case using assms by simp
next
  case (Suc n)
  let ?t = "((\<lambda>s. handleState env' (stringCallback ''ABORT'' env s)) ^^ n) s"
  from Suc have st: "settledStopped ?t" by simp
  then have "stringCallback ''ABORT'' env ?t = ?t"
    by (simp add: abort_Stopped settledStopped_def)
  with tick_settledStopped [OF st, of env'] Suc show ?case
    by simp
qed

lemma step_valid:
  assumes "roofState s = roofStopped \<or> roofState s = roofOpening \<or> roofState s = roofClosing"
  shows "roofState (step e s) = roofStopped \<or> roofState (step e s) = roofOpening
         \<or> roofState (step e s) = roofClosing"
proof (cases e)
  case (Command cmd env)
  with assms stringCallback_roofState [of cmd env s] show ?thesis by auto
next
  case (Tick env)
  with assms handleState_roofState [of env s] show ?thesis by auto
next
  case (Elapse d)
  with assms show ?thesis by simp
qed

lemma run_valid:
  "roofState s = roofStopped \<or> roofState s = roofOpening \<or> roofState s = roofClosing \<Longrightarrow>
   roofState (run evs s) = roofStopped \<or> roofState (run evs s) = roofOpening
     \<or> roofState (run evs s) = roofClosing"
  unfolding run_def
proof (induction evs arbitrary: s)
  case Nil
  then show ?case by simp
next
  case (Cons e evs)
  from Cons.IH [OF step_valid [OF Cons.prems, of e]] show ?case by simp
qed

lemma boot_state: "roofState (boot t0 ro rc l) = roofStopped"
  by (simp add: boot_def setup_sketch_def motorOff_eq powerOn_def)

lemma duration_handleLEDs [simp]:
  "roofMotorRunDuration (handleLEDs env s) = roofMotorRunDuration s"
  by (simp add: roofMotorRunDuration_def millis_def)

lemma safetyCutout_fires:
  assumes "(roofState s = roofOpening \<and> digitalRead pinLimitSwitchOpen env = HIGH)
           \<or> (roofState s = roofClosing \<and> digitalRead pinLimitSwitchClose env = HIGH)"
    and "20000 < roofMotorRunDuration s"
  shows "roofState (safetyCutout env s) = roofStopped"
  using assms by (auto simp add: safetyCutout_def)

lemma handleState_after_cutout:
  "roofState (safetyCutout env (handleLEDs env s)) = roofStopped \<Longrightarrow>
   roofState (handleState env s) = roofStopped"
  by (simp add: handleState_def Let_def motorOff_eq roof_defs)

text \<open>One pass of \<open>loop\<close> is an execution: the pending strings, then a tick.\<close>

lemma loop_run: "loop pending env s = run (map (\<lambda>m. Command m env) pending @ [Tick env]) s"
proof -
  have "(\<lambda>m. step (Command m env)) = (\<lambda>m. stringCallback m env)"
    by (intro ext) simp
  then show ?thesis
    by (simp add: loop_def run_def fold_map comp_def)
qed

section \<open>Two concrete executions\<close>

text \<open>
  Boot at time 0 with all outputs de-energized, then \<open>OPEN\<close> with the telescope parked and
  no limit switch asserted, a tick, and 21 seconds of idle time.
\<close>

lemma eval_boot:
  "boot 0 HIGH HIGH LOW = \<lparr>roofState = 2, previousRoofState = 2, hoistOnTime = 0,
      ledToggleTime = 0, ledState = False, clock = 1000, outRelayOpen = HIGH,
      outRelayClose = HIGH, outLed = LOW,
      relayTrace = [(0, HIGH, HIGH), (0, HIGH, HIGH)], sent = []\<rparr>"
  by (simp add: boot_def setup_sketch_def motorOff_eq powerOn_def roof_defs)

lemma eval_open_tick:
  "run [Command ''OPEN'' (\<lambda>_. LOW), Tick (\<lambda>_. LOW)] (boot 0 HIGH HIGH LOW)
    = \<lparr>roofState = 4, previousRoofState = 4, hoistOnTime = 2800,
      ledToggleTime = 0, ledState = False, clock = 2800, outRelayOpen = HIGH,
      outRelayClose = HIGH, outLed = LOW,
      relayTrace = [(0, HIGH, HIGH), (0, HIGH, HIGH), (1000, HIGH, HIGH), (1000, HIGH, HIGH),
        (2000, HIGH, LOW), (2800, HIGH, HIGH)], sent = []\<rparr>"
  by (simp add: run_def eval_boot stringCallback_def handleState_def handleLEDs_def
      safetyCutout_def roofMotorRunDuration_def digitalRead_def digitalWrite_def millis_def
      motorFwd_eq Let_def pin_defs roof_defs)

lemma eval_open:
  "run [Command ''OPEN'' (\<lambda>_. LOW)] (boot 0 HIGH HIGH LOW)
    = \<lparr>roofState = 4, previousRoofState = 2, hoistOnTime = 0,
      ledToggleTime = 0, ledState = False, clock = 1000, outRelayOpen = HIGH,
      outRelayClose = HIGH, outLed = LOW,
      relayTrace = [(0, HIGH, HIGH), (0, HIGH, HIGH)], sent = []\<rparr>"
  by (simp add: run_def eval_boot stringCallback_def digitalRead_def Let_def roof_defs)

lemma eval_open_tick_wait:
  "run [Command ''OPEN'' (\<lambda>_. LOW), Tick (\<lambda>_. LOW), Elapse 21000] (boot 0 HIGH HIGH LOW)
    = \<lparr>roofState = 4, previousRoofState = 4, hoistOnTime = 2800,
      ledToggleTime = 0, ledState = False, clock = 23800, outRelayOpen = HIGH,
      outRelayClose = HIGH, outLed = LOW,
      relayTrace = [(0, HIGH, HIGH), (0, HIGH, HIGH), (1000, HIGH, HIGH), (1000, HIGH, HIGH),
        (2000, HIGH, LOW), (2800, HIGH, HIGH)], sent = []\<rparr>"
proof -
  have "run [Command ''OPEN'' (\<lambda>_. LOW), Tick (\<lambda>_. LOW), Elapse 21000] (boot 0 HIGH HIGH LOW)
      = step (Elapse 21000) (run [Command ''OPEN'' (\<lambda>_. LOW), Tick (\<lambda>_. LOW)] (boot 0 HIGH HIGH LOW))"
    by (simp add: run_def)
  then show ?thesis
    unfolding eval_open_tick by simp
qed

section \<open>Relay interlock\<close>

text \<open>
  Claim C1. In every state reached from boot by any sequence of received strings, ticks
  and idle time, every configuration the two relay pins have passed through since the
  first relay write of \<open>setup()\<close> has at least one pin at the de-energized level
  \<open>HIGH\<close>, so the two relays are never energized together, also not during the settle
  delay and the pulse of a direction change. Between events both pins are \<open>HIGH\<close>.
\<close>

theorem C1_relays_never_both_energized:
  "list_all relaysSafe (relayTrace (run evs (boot t0 ro rc l)))
   \<and> outRelayOpen (run evs (boot t0 ro rc l)) = HIGH
   \<and> outRelayClose (run evs (boot t0 ro rc l)) = HIGH"
  using run_trace [OF boot_trace, of evs t0 ro rc l] run_relays [OF boot_relays, of evs t0 ro rc l]
  by (simp add: relaysIdle_def)

section \<open>Command handling\<close>

text \<open>
  Claim C3. When \<open>OPEN\<close> (respectively \<open>CLOSE\<close>) is received while at least one of
  the two park sensors does not read parked (\<open>LOW\<close>), the handler sends
  \<open>NOTELESCOPEPARK\<close> and still sets \<open>roofState\<close> to \<open>roofOpening\<close> (respectively
  \<open>roofClosing\<close>); nothing else of the state changes.
\<close>

theorem C3_interlock_advisory:
  assumes "digitalRead parkTelescopeRA env \<noteq> LOW \<or> digitalRead parkTelescopeDEC env \<noteq> LOW"
  shows "stringCallback ''OPEN'' env s
           = s\<lparr>roofState := roofOpening, sent := sent s @ [''NOTELESCOPEPARK'']\<rparr>
         \<and> emitted s (stringCallback ''OPEN'' env s) = [''NOTELESCOPEPARK'']
         \<and> roofState (stringCallback ''OPEN'' env s) = roofOpening
         \<and> stringCallback ''CLOSE'' env s
           = s\<lparr>roofState := roofClosing, sent := sent s @ [''NOTELESCOPEPARK'']\<rparr>
         \<and> emitted s (stringCallback ''CLOSE'' env s) = [''NOTELESCOPEPARK'']
         \<and> roofState (stringCallback ''CLOSE'' env s) = roofClosing"
  using assms by (auto simp add: stringCallback_def sendString_def emitted_def Let_def)

theorem C3_interlock_advisory_witness:
  "digitalRead parkTelescopeRA ((\<lambda>_. LOW)(parkTelescopeRA := HIGH)) \<noteq> LOW
   \<and> roofState (stringCallback ''OPEN'' ((\<lambda>_. LOW)(parkTelescopeRA := HIGH))
        (boot 0 HIGH HIGH LOW)) = roofOpening
   \<and> sent (stringCallback ''OPEN'' ((\<lambda>_. LOW)(parkTelescopeRA := HIGH))
        (boot 0 HIGH HIGH LOW)) = [''NOTELESCOPEPARK'']
   \<and> roofState (stringCallback ''CLOSE'' ((\<lambda>_. LOW)(parkTelescopeRA := HIGH))
        (boot 0 HIGH HIGH LOW)) = roofClosing
   \<and> sent (stringCallback ''CLOSE'' ((\<lambda>_. LOW)(parkTelescopeRA := HIGH))
        (boot 0 HIGH HIGH LOW)) = [''NOTELESCOPEPARK'']"
  using C3_interlock_advisory [of "(\<lambda>_. LOW)(parkTelescopeRA := HIGH)" "boot 0 HIGH HIGH LOW"]
  by (simp add: digitalRead_def boot_def setup_sketch_def motorOff_eq powerOn_def)

text \<open>
  Claim C5, evaluated at a failing input. With the RA sensor not parked (\<open>HIGH\<close>), the
  DEC sensor parked, the open-limit switch asserted and the close-limit switch not, the
  reply to \<open>QUERY\<close> is \<open>OPEN\<close> and not \<open>NOTELESCOPEPARK\<close>: the handler tests that
  both sensors read not parked, where the \<open>OPEN\<close> and \<open>CLOSE\<close> branches send
  \<open>NOTELESCOPEPARK\<close> as soon as one of them does.
\<close>

theorem C5_query_one_sensor_unparked:
  "digitalRead parkTelescopeRA ((\<lambda>_. LOW)(parkTelescopeRA := HIGH, pinLimitSwitchOpen := HIGH)) = HIGH
   \<and> emitted (boot 0 HIGH HIGH LOW)
        (stringCallback ''QUERY'' ((\<lambda>_. LOW)(parkTelescopeRA := HIGH, pinLimitSwitchOpen := HIGH))
          (boot 0 HIGH HIGH LOW)) = [''OPEN'']"
  by (simp add: stringCallback_def sendString_def emitted_def Let_def digitalRead_def pin_defs)

text \<open>
  Claim C6. When \<open>QUERY\<close> is received while both park sensors read parked, the reply is
  \<open>OPEN\<close> if the open-limit switch is asserted and the close-limit switch is not,
  \<open>CLOSED\<close> in the converse case, and \<open>UNKNOWN\<close> when both or neither are asserted;
  the reply is the only change of the state.
\<close>

theorem C6_query_limit_reply:
  assumes "digitalRead parkTelescopeRA env = LOW" and "digitalRead parkTelescopeDEC env = LOW"
  shows "stringCallback ''QUERY'' env s
           = s\<lparr>sent := sent s @
               [case (digitalRead pinLimitSwitchOpen env, digitalRead pinLimitSwitchClose env) of
                  (HIGH, LOW) \<Rightarrow> ''OPEN''
                | (LOW, HIGH) \<Rightarrow> ''CLOSED''
                | (HIGH, HIGH) \<Rightarrow> ''UNKNOWN''
                | (LOW, LOW) \<Rightarrow> ''UNKNOWN'']\<rparr>"
  using assms by (simp add: stringCallback_def sendString_def Let_def split: level.splits)

theorem C6_query_limit_reply_witness:
  "digitalRead parkTelescopeRA ((\<lambda>_. LOW)(pinLimitSwitchOpen := HIGH)) = LOW
   \<and> digitalRead parkTelescopeDEC ((\<lambda>_. LOW)(pinLimitSwitchOpen := HIGH)) = LOW
   \<and> sent (stringCallback ''QUERY'' ((\<lambda>_. LOW)(pinLimitSwitchOpen := HIGH))
        (boot 0 HIGH HIGH LOW)) = [''OPEN'']
   \<and> sent (stringCallback ''QUERY'' (\<lambda>_. LOW) (boot 0 HIGH HIGH LOW)) = [''UNKNOWN'']
   \<and> sent (stringCallback ''QUERY'' ((\<lambda>_. LOW)(pinLimitSwitchClose := HIGH))
        (boot 0 HIGH HIGH LOW)) = [''CLOSED'']
   \<and> sent (stringCallback ''QUERY''
        ((\<lambda>_. LOW)(pinLimitSwitchClose := HIGH, pinLimitSwitchOpen := HIGH))
        (boot 0 HIGH HIGH LOW)) = [''UNKNOWN'']"
  using C6_query_limit_reply [of "(\<lambda>_. LOW)(pinLimitSwitchOpen := HIGH)" "boot 0 HIGH HIGH LOW"]
    C6_query_limit_reply [of "\<lambda>_. LOW" "boot 0 HIGH HIGH LOW"]
    C6_query_limit_reply [of "(\<lambda>_. LOW)(pinLimitSwitchClose := HIGH)" "boot 0 HIGH HIGH LOW"]
    C6_query_limit_reply [of "(\<lambda>_. LOW)(pinLimitSwitchClose := HIGH, pinLimitSwitchOpen := HIGH)"
      "boot 0 HIGH HIGH LOW"]
  by (simp add: digitalRead_def pin_defs boot_def setup_sketch_def motorOff_eq powerOn_def)

text \<open>
  Claim C7. The reply to \<open>QUERY\<close> depends on the readings of the two limit switches and
  the two park sensors only: two calls that read these four pins alike send the same
  strings, whatever the two controller states (\<open>roofState\<close>, \<open>previousRoofState\<close>,
  \<open>hoistOnTime\<close>, earlier replies) and the other pins are.
\<close>

theorem C7_query_depends_on_sensors_only:
  assumes "digitalRead pinLimitSwitchOpen env1 = digitalRead pinLimitSwitchOpen env2"
    and "digitalRead pinLimitSwitchClose env1 = digitalRead pinLimitSwitchClose env2"
    and "digitalRead parkTelescopeRA env1 = digitalRead parkTelescopeRA env2"
    and "digitalRead parkTelescopeDEC env1 = digitalRead parkTelescopeDEC env2"
  shows "emitted s1 (stringCallback ''QUERY'' env1 s1) = emitted s2 (stringCallback ''QUERY'' env2 s2)"
  using assms by (simp add: stringCallback_def sendString_def emitted_def Let_def)

theorem C7_query_depends_on_sensors_only_witness:
  "digitalRead pinLimitSwitchOpen (\<lambda>_. LOW) = digitalRead pinLimitSwitchOpen ((\<lambda>_. LOW)(ledPin := HIGH))
   \<and> digitalRead pinLimitSwitchClose (\<lambda>_. LOW) = digitalRead pinLimitSwitchClose ((\<lambda>_. LOW)(ledPin := HIGH))
   \<and> digitalRead parkTelescopeRA (\<lambda>_. LOW) = digitalRead parkTelescopeRA ((\<lambda>_. LOW)(ledPin := HIGH))
   \<and> digitalRead parkTelescopeDEC (\<lambda>_. LOW) = digitalRead parkTelescopeDEC ((\<lambda>_. LOW)(ledPin := HIGH))
   \<and> emitted (boot 0 HIGH HIGH LOW) (stringCallback ''QUERY'' (\<lambda>_. LOW) (boot 0 HIGH HIGH LOW))
     = emitted (stringCallback ''OPEN'' (\<lambda>_. HIGH) (boot 7 LOW HIGH LOW))
         (stringCallback ''QUERY'' ((\<lambda>_. LOW)(ledPin := HIGH))
           (stringCallback ''OPEN'' (\<lambda>_. HIGH) (boot 7 LOW HIGH LOW)))"
  using C7_query_depends_on_sensors_only [of "\<lambda>_. LOW" "(\<lambda>_. LOW)(ledPin := HIGH)"
      "boot 0 HIGH HIGH LOW" "stringCallback ''OPEN'' (\<lambda>_. HIGH) (boot 7 LOW HIGH LOW)"]
  by (simp add: digitalRead_def pin_defs)

text \<open>
  Claim C9. A received string other than \<open>OPEN\<close>, \<open>CLOSE\<close>, \<open>ABORT\<close> and
  \<open>QUERY\<close> (compared exactly, case-sensitive) leaves the whole controller state as it
  was and sends no reply.
\<close>

theorem C9_unrecognized_ignored:
  assumes "cmd \<noteq> ''OPEN''" and "cmd \<noteq> ''CLOSE''" and "cmd \<noteq> ''ABORT''" and "cmd \<noteq> ''QUERY''"
  shows "stringCallback cmd env s = s \<and> emitted s (stringCallback cmd env s) = []"
  using assms by (simp add: stringCallback_def emitted_def Let_def)

theorem C9_unrecognized_ignored_witness:
  "''open'' \<noteq> ''OPEN'' \<and> ''open'' \<noteq> ''CLOSE'' \<and> ''open'' \<noteq> ''ABORT'' \<and> ''open'' \<noteq> ''QUERY''
   \<and> stringCallback ''open'' (\<lambda>_. LOW) (boot 0 HIGH HIGH LOW) = boot 0 HIGH HIGH LOW
   \<and> emitted (boot 0 HIGH HIGH LOW) (stringCallback ''open'' (\<lambda>_. LOW) (boot 0 HIGH HIGH LOW)) = []"
  using C9_unrecognized_ignored [of "''open''" "\<lambda>_. LOW" "boot 0 HIGH HIGH LOW"]
  by (simp add: emitted_def)

text \<open>
  Claim C8. \<open>ABORT\<close> sets \<open>roofState\<close> to \<open>roofStopped\<close> in every state, and a
  second \<open>ABORT\<close> changes nothing any more. With \<open>roofState\<close> already
  \<open>roofStopped\<close> the command leaves the whole state as it was. From a stopped roof
  whose stop a tick has applied (\<open>previousRoofState\<close> is \<open>roofStopped\<close> too), any
  number of rounds of \<open>ABORT\<close> followed by a tick leaves the state stopped, writes no
  relay pin (the trace gains no entry) and leaves both relay outputs as they were.
\<close>

theorem C8_abort_idempotent:
  "roofState (stringCallback ''ABORT'' env s) = roofStopped
   \<and> stringCallback ''ABORT'' env' (stringCallback ''ABORT'' env s) = stringCallback ''ABORT'' env s
   \<and> (roofState s = roofStopped \<longrightarrow> stringCallback ''ABORT'' env s = s)
   \<and> (roofState s = roofStopped \<and> previousRoofState s = roofStopped \<longrightarrow>
        (let s' = ((\<lambda>s. handleState env' (stringCallback ''ABORT'' env s)) ^^ n) s
         in roofState s' = roofStopped \<and> previousRoofState s' = roofStopped
            \<and> relayTrace s' = relayTrace s
            \<and> outRelayOpen s' = outRelayOpen s \<and> outRelayClose s' = outRelayClose s))"
proof -
  have a: "roofState (stringCallback ''ABORT'' env s) = roofStopped"
    by (simp add: stringCallback_def Let_def)
  have b: "stringCallback ''ABORT'' env' (stringCallback ''ABORT'' env s) = stringCallback ''ABORT'' env s"
    using a by (rule abort_Stopped)
  have c: "roofState s = roofStopped \<longrightarrow> stringCallback ''ABORT'' env s = s"
    by (simp add: abort_Stopped)
  have d: "roofState s = roofStopped \<and> previousRoofState s = roofStopped \<longrightarrow>
        (let s' = ((\<lambda>s. handleState env' (stringCallback ''ABORT'' env s)) ^^ n) s
         in roofState s' = roofStopped \<and> previousRoofState s' = roofStopped
            \<and> relayTrace s' = relayTrace s
            \<and> outRelayOpen s' = outRelayOpen s \<and> outRelayClose s' = outRelayClose s)"
    using abort_tick_round [where s = s and env' = env' and env = env and n = n]
    by (simp add: settledStopped_def Let_def)
  from a b c d show ?thesis by (intro conjI)
qed

theorem C8_abort_idempotent_witness:
  "roofState (boot 0 HIGH HIGH LOW) = roofStopped
   \<and> previousRoofState (boot 0 HIGH HIGH LOW) = roofStopped
   \<and> stringCallback ''ABORT'' (\<lambda>_. LOW) (boot 0 HIGH HIGH LOW) = boot 0 HIGH HIGH LOW
   \<and> relayTrace (((\<lambda>s. handleState (\<lambda>_. HIGH) (stringCallback ''ABORT'' (\<lambda>_. LOW) s)) ^^ 3)
        (boot 0 HIGH HIGH LOW)) = relayTrace (boot 0 HIGH HIGH LOW)"
proof -
  have h: "roofState (boot 0 HIGH HIGH LOW) = roofStopped
      \<and> previousRoofState (boot 0 HIGH HIGH LOW) = roofStopped"
    by (simp add: eval_boot roof_defs)
  from C8_abort_idempotent [of "\<lambda>_. LOW" "boot 0 HIGH HIGH LOW" "\<lambda>_. HIGH" 3] h
  show ?thesis by (simp add: Let_def)
qed

section \<open>Reachable roof states\<close>

text \<open>
  Claim C10. In every state reached from boot by any sequence of received strings, ticks
  and idle time, \<open>roofState\<close> is \<open>roofStopped\<close>, \<open>roofOpening\<close> or \<open>roofClosing\<close>;
  the declared values \<open>roofClosed\<close> and \<open>roofOpen\<close> are never taken.
\<close>

theorem C10_closed_open_unreachable:
  "(roofState (run evs (boot t0 ro rc l)) = roofStopped
    \<or> roofState (run evs (boot t0 ro rc l)) = roofOpening
    \<or> roofState (run evs (boot t0 ro rc l)) = roofClosing)
   \<and> roofState (run evs (boot t0 ro rc l)) \<noteq> roofClosed
   \<and> roofState (run evs (boot t0 ro rc l)) \<noteq> roofOpen"
  using run_valid [of "boot t0 ro rc l" evs] boot_state [of t0 ro rc l]
  by (auto simp add: roof_defs)

section \<open>Safety cutout\<close>

text \<open>
  Claim C2 as stated fails. After \<open>OPEN\<close>, the tick that starts the motion and 21 seconds
  of idle time, \<open>roofState\<close> is \<open>roofOpening\<close>, the run duration is 21000 ms and the
  open-limit switch is not asserted; the next tick leaves \<open>roofState\<close> at
  \<open>roofOpening\<close>.
\<close>

theorem C2_timeout_without_limit_counterexample:
  "roofState (run [Command ''OPEN'' (\<lambda>_. LOW), Tick (\<lambda>_. LOW), Elapse 21000] (boot 0 HIGH HIGH LOW))
     = roofOpening
   \<and> roofMotorRunDuration
       (run [Command ''OPEN'' (\<lambda>_. LOW), Tick (\<lambda>_. LOW), Elapse 21000] (boot 0 HIGH HIGH LOW))
     = 21000
   \<and> digitalRead pinLimitSwitchOpen (\<lambda>_. LOW) = LOW
   \<and> roofState (handleState (\<lambda>_. LOW)
       (run [Command ''OPEN'' (\<lambda>_. LOW), Tick (\<lambda>_. LOW), Elapse 21000] (boot 0 HIGH HIGH LOW)))
     = roofOpening
   \<and> roofState (handleState (\<lambda>_. LOW)
       (run [Command ''OPEN'' (\<lambda>_. LOW), Tick (\<lambda>_. LOW), Elapse 21000] (boot 0 HIGH HIGH LOW)))
     \<noteq> roofStopped"
  unfolding eval_open_tick_wait
  by (simp add: handleState_def handleLEDs_def safetyCutout_def roofMotorRunDuration_def
      digitalRead_def digitalWrite_def millis_def Let_def pin_defs roof_defs)

text \<open>
  Claim C2, amended. In a state reached from boot, a tick in which \<open>roofState\<close> is
  \<open>roofOpening\<close> (respectively \<open>roofClosing\<close>), the run duration computed by
  \<open>roofMotorRunDuration\<close> exceeds 20000 ms and the open-limit (respectively close-limit)
  switch reads asserted sets \<open>roofState\<close> to \<open>roofStopped\<close> and leaves both relay
  outputs de-energized.
\<close>

theorem C2_cutout_when_limit_asserted:
  assumes "s = run evs (boot t0 ro rc l)"
    and "(roofState s = roofOpening \<and> digitalRead pinLimitSwitchOpen env = HIGH)
         \<or> (roofState s = roofClosing \<and> digitalRead pinLimitSwitchClose env = HIGH)"
    and "20000 < roofMotorRunDuration s"
  shows "roofState (handleState env s) = roofStopped
         \<and> outRelayOpen (handleState env s) = HIGH
         \<and> outRelayClose (handleState env s) = HIGH"
proof -
  have "relaysIdle s"
    unfolding assms(1) by (rule run_relays [OF boot_relays])
  then have idle: "relaysIdle (handleState env s)"
    by (rule handleState_relays)
  have "roofState (safetyCutout env (handleLEDs env s)) = roofStopped"
    using assms(2,3) by (intro safetyCutout_fires) simp_all
  then have "roofState (handleState env s) = roofStopped"
    by (rule handleState_after_cutout)
  with idle show ?thesis
    by (simp add: relaysIdle_def)
qed

theorem C2_cutout_when_limit_asserted_witness:
  "roofState (run [Command ''OPEN'' (\<lambda>_. LOW), Tick (\<lambda>_. LOW), Elapse 21000] (boot 0 HIGH HIGH LOW))
     = roofOpening
   \<and> digitalRead pinLimitSwitchOpen ((\<lambda>_. LOW)(pinLimitSwitchOpen := HIGH)) = HIGH
   \<and> 20000 < roofMotorRunDuration
       (run [Command ''OPEN'' (\<lambda>_. LOW), Tick (\<lambda>_. LOW), Elapse 21000] (boot 0 HIGH HIGH LOW))
   \<and> roofState (handleState ((\<lambda>_. LOW)(pinLimitSwitchOpen := HIGH))
       (run [Command ''OPEN'' (\<lambda>_. LOW), Tick (\<lambda>_. LOW), Elapse 21000] (boot 0 HIGH HIGH LOW)))
     = roofStopped
   \<and> outRelayOpen (handleState ((\<lambda>_. LOW)(pinLimitSwitchOpen := HIGH))
       (run [Command ''OPEN'' (\<lambda>_. LOW), Tick (\<lambda>_. LOW), Elapse 21000] (boot 0 HIGH HIGH LOW)))
     = HIGH
   \<and> outRelayClose (handleState ((\<lambda>_. LOW)(pinLimitSwitchOpen := HIGH))
       (run [Command ''OPEN'' (\<lambda>_. LOW), Tick (\<lambda>_. LOW), Elapse 21000] (boot 0 HIGH HIGH LOW)))
     = HIGH"
proof -
  have h1: "roofState (run [Command ''OPEN'' (\<lambda>_. LOW), Tick (\<lambda>_. LOW), Elapse 21000]
      (boot 0 HIGH HIGH LOW)) = roofOpening"
    unfolding eval_open_tick_wait by (simp add: roof_defs)
  have h2: "digitalRead pinLimitSwitchOpen ((\<lambda>_. LOW)(pinLimitSwitchOpen := HIGH)) = HIGH"
    by (simp add: digitalRead_def)
  have h3: "20000 < roofMotorRunDuration
       (run [Command ''OPEN'' (\<lambda>_. LOW), Tick (\<lambda>_. LOW), Elapse 21000] (boot 0 HIGH HIGH LOW))"
    unfolding eval_open_tick_wait by (simp add: roofMotorRunDuration_def millis_def roof_defs)
  have h12: "(roofState (run [Command ''OPEN'' (\<lambda>_. LOW), Tick (\<lambda>_. LOW), Elapse 21000]
        (boot 0 HIGH HIGH LOW)) = roofOpening
      \<and> digitalRead pinLimitSwitchOpen ((\<lambda>_. LOW)(pinLimitSwitchOpen := HIGH)) = HIGH)
    \<or> (roofState (run [Command ''OPEN'' (\<lambda>_. LOW), Tick (\<lambda>_. LOW), Elapse 21000]
        (boot 0 HIGH HIGH LOW)) = roofClosing
      \<and> digitalRead pinLimitSwitchClose ((\<lambda>_. LOW)(pinLimitSwitchOpen := HIGH)) = HIGH)"
    using h1 h2 by (intro disjI1 conjI)
  from C2_cutout_when_limit_asserted [OF refl h12 h3] h1 h2 h3
  show ?thesis by (intro conjI) simp_all
qed

section \<open>The opening pulse\<close>

text \<open>
  Claim C4 as stated fails. The tick after \<open>OPEN\<close> detects the change into
  \<open>roofOpening\<close> at time 1000 and calls \<open>motorFwd\<close>: the pin pulsed from 2000 to 2800
  is \<open>pinRelayClose\<close>, the pin \<open>pinRelayOpen\<close> is never energized, and
  \<open>hoistOnTime\<close> is 2800, the end of the pulse, not its start at 2000.
\<close>

theorem C4_open_pulse_counterexample:
  "roofState (safetyCutout (\<lambda>_. LOW) (handleLEDs (\<lambda>_. LOW)
       (run [Command ''OPEN'' (\<lambda>_. LOW)] (boot 0 HIGH HIGH LOW)))) = roofOpening
   \<and> previousRoofState (run [Command ''OPEN'' (\<lambda>_. LOW)] (boot 0 HIGH HIGH LOW)) = roofStopped
   \<and> relayTrace (handleState (\<lambda>_. LOW) (run [Command ''OPEN'' (\<lambda>_. LOW)] (boot 0 HIGH HIGH LOW)))
     = relayTrace (run [Command ''OPEN'' (\<lambda>_. LOW)] (boot 0 HIGH HIGH LOW))
       @ [(1000, HIGH, HIGH), (1000, HIGH, HIGH), (2000, HIGH, LOW), (2800, HIGH, HIGH)]
   \<and> filter (\<lambda>(t, ro, rc). energized ro)
       (relayTrace (handleState (\<lambda>_. LOW) (run [Command ''OPEN'' (\<lambda>_. LOW)] (boot 0 HIGH HIGH LOW))))
     = []
   \<and> hoistOnTime (handleState (\<lambda>_. LOW) (run [Command ''OPEN'' (\<lambda>_. LOW)] (boot 0 HIGH HIGH LOW)))
     = 2800"
  unfolding eval_open
  by (simp add: handleState_def handleLEDs_def safetyCutout_def roofMotorRunDuration_def
      digitalRead_def digitalWrite_def millis_def motorFwd_eq Let_def pin_defs roof_defs
      energized_def)

text \<open>
  Claim C4, amended. In a state reached from boot, a tick that detects a change into
  \<open>roofOpening\<close> first writes both relay pins to the de-energized level, holds them for
  the 1000 ms settle delay, then energizes exactly one relay output for 800 ms and
  returns it to the de-energized level; \<open>hoistOnTime\<close> is recorded when the pulse ends,
  1800 ms after the tick began. Each trace entry is given as its time since the tick
  began and the number of energized relay outputs.
\<close>

theorem C4_opening_pulse:
  assumes "s = run evs (boot t0 ro rc l)"
    and "roofState (safetyCutout env (handleLEDs env s)) = roofOpening"
    and "previousRoofState s \<noteq> roofOpening"
  shows "map (\<lambda>(t, ro, rc). (t - clock s, length (filter energized [ro, rc])))
           (drop (length (relayTrace s)) (relayTrace (handleState env s)))
           = [(0, 0), (0, 0), (1000, 1), (1800, 0)]
         \<and> hoistOnTime (handleState env s) = clock s + 1800
         \<and> clock (handleState env s) = clock s + 1800
         \<and> roofState (handleState env s) = roofOpening
         \<and> previousRoofState (handleState env s) = roofOpening"
proof -
  have "relaysIdle s"
    unfolding assms(1) by (rule run_relays [OF boot_relays])
  then have rc: "outRelayClose s = HIGH"
    by (simp add: relaysIdle_def)
  let ?s2 = "safetyCutout env (handleLEDs env s)"
  have h: "handleState env s = motorFwd (?s2\<lparr>previousRoofState := roofOpening\<rparr>)"
    using assms(2,3) by (simp add: handleState_def Let_def)
  show ?thesis
    unfolding h using assms(2) rc by (simp add: motorFwd_eq energized_def)
qed

theorem C4_opening_pulse_witness:
  "roofState (safetyCutout (\<lambda>_. LOW) (handleLEDs (\<lambda>_. LOW)
       (run [Command ''OPEN'' (\<lambda>_. LOW)] (boot 0 HIGH HIGH LOW)))) = roofOpening
   \<and> previousRoofState (run [Command ''OPEN'' (\<lambda>_. LOW)] (boot 0 HIGH HIGH LOW)) \<noteq> roofOpening
   \<and> map (\<lambda>(t, ro, rc). (t - 1000, length (filter energized [ro, rc])))
       (drop 2 (relayTrace (handleState (\<lambda>_. LOW)
          (run [Command ''OPEN'' (\<lambda>_. LOW)] (boot 0 HIGH HIGH LOW)))))
     = [(0, 0), (0, 0), (1000, 1), (1800, 0)]
   \<and> hoistOnTime (handleState (\<lambda>_. LOW) (run [Command ''OPEN'' (\<lambda>_. LOW)] (boot 0 HIGH HIGH LOW)))
     = 2800"
proof -
  have h2: "roofState (safetyCutout (\<lambda>_. LOW) (handleLEDs (\<lambda>_. LOW)
       (run [Command ''OPEN'' (\<lambda>_. LOW)] (boot 0 HIGH HIGH LOW)))) = roofOpening"
    unfolding eval_open
    by (simp add: safetyCutout_def roofMotorRunDuration_def millis_def roof_defs)
  have h3: "previousRoofState (run [Command ''OPEN'' (\<lambda>_. LOW)] (boot 0 HIGH HIGH LOW)) \<noteq> roofOpening"
    unfolding eval_open by (simp add: roof_defs)
  have c: "clock (run [Command ''OPEN'' (\<lambda>_. LOW)] (boot 0 HIGH HIGH LOW)) = 1000"
    and n: "length (relayTrace (run [Command ''OPEN'' (\<lambda>_. LOW)] (boot 0 HIGH HIGH LOW))) = 2"
    unfolding eval_open by simp_all
  from C4_opening_pulse [OF refl h2 h3] h2 h3 show ?thesis
    unfolding c n by simp
qed

end
